theory Spec2Isabelle
  imports Complex_Main "HOL-Library.Word"
begin

section \<open>SolixBLE: the session object and its telemetry decoder\<close>

text \<open>
  A shallow embedding of \<^verbatim>\<open>src/SolixBLE.py\<close>. The class \<^verbatim>\<open>SolixBLEDevice\<close> is a record
  of its attributes; every method takes the record and returns the updated one. A leading
  underscore of a Python attribute is written \<open>p_\<close>, since an Isabelle name cannot start
  with an underscore; the read-only properties keep their own names, but for
  \<^verbatim>\<open>connected\<close>, written \<open>connected_prop\<close>, a name the library already uses.

  Conventions of the model:
  \<^item> a byte of a \<^verbatim>\<open>bytearray\<close> is an \<open>8 word\<close>, read as an integer with \<open>uint\<close>;
  \<^item> Python's unbounded \<^verbatim>\<open>int\<close> is \<open>int\<close>;
  \<^item> the result of \<^verbatim>\<open>n / 10.0\<close> is the exact quotient, a \<open>rat\<close>: the rounding of
    the binary floating-point division is not modelled;
  \<^item> \<^verbatim>\<open>datetime.now()\<close> is an argument of the function that reads the clock;
  \<^item> an exception is a value: a method that can raise returns the exception, if any,
    together with the state the object is left in;
  \<^item> the transport library (bleak) and the registered callbacks are outside the source:
    their answers are parameters, and every call made to them is recorded in a list of events.
\<close>

subsection \<open>Constants\<close>

definition RECONNECT_ATTEMPTS_MAX :: int where
  "RECONNECT_ATTEMPTS_MAX = 5"

definition EXPECTED_TELEMETRY_SIZE :: nat where
  "EXPECTED_TELEMETRY_SIZE = 253"

definition DEFAULT_METADATA_STRING :: string where
  "DEFAULT_METADATA_STRING = ''Unknown''"

definition DEFAULT_METADATA_INT :: int where
  "DEFAULT_METADATA_INT = - 1"

subsection \<open>Data\<close>

type_synonym byte = "8 word"

type_synonym datetime = nat

text \<open>A link is the identity of a \<^verbatim>\<open>BleakClient\<close> object; Python compares clients by identity.\<close>

type_synonym link = nat

text \<open>A callback is known to the session by its identity only.\<close>

type_synonym callback = nat

datatype py_error = UnicodeDecodeError | TypeError | AttributeError | ValueError | BleakError | CallbackError

record ble_device =
  address :: string
  name :: "string option"

record device =
  p_ble_device :: ble_device
  p_client :: "link option"
  p_serial_no :: "string option"
  p_charge_percentage_battery :: "int option"
  p_temperature_battery :: "int option"
  p_power_battery_discharge :: "rat option"
  p_energy_battery_total_in :: "rat option"
  p_power_ac_out :: "rat option"
  p_power_solar_in :: "rat option"
  p_energy_solar_total_in :: "rat option"
  p_energy_total_out :: "rat option"
  p_status_solar :: "int option"
  p_status_light :: "int option"
  unknown1 :: "int option"
  unknown2 :: "int option"
  unknown3 :: "rat option"
  p_data :: "byte list option"
  p_last_data_timestamp :: "datetime option"
  p_supports_telemetry :: bool
  p_state_changed_callbacks :: "callback list"
  p_reconnect_task :: "nat option"
  p_expect_disconnect :: bool
  p_connection_attempts :: int
  timed_out :: bool

text \<open>\<^verbatim>\<open>SolixBLEDevice.__init__\<close>\<close>

definition init :: "ble_device \<Rightarrow> device" where
  "init dev =
     \<lparr> p_ble_device = dev,
       p_client = None,
       p_serial_no = None,
       p_charge_percentage_battery = None,
       p_temperature_battery = None,
       p_power_battery_discharge = None,
       p_energy_battery_total_in = None,
       p_power_ac_out = None,
       p_power_solar_in = None,
       p_energy_solar_total_in = None,
       p_energy_total_out = None,
       p_status_solar = None,
       p_status_light = None,
       unknown1 = None,
       unknown2 = None,
       unknown3 = None,
       p_data = None,
       p_last_data_timestamp = None,
       p_supports_telemetry = False,
       p_state_changed_callbacks = [],
       p_reconnect_task = None,
       p_expect_disconnect = True,
       p_connection_attempts = 0,
       timed_out = False \<rparr>"

subsection \<open>Bytes\<close>

text \<open>The slice \<^verbatim>\<open>xs[i:j]\<close> for \<open>0 \<le> i \<le> j\<close>; a slice never raises, it is cut at the end.\<close>

definition py_slice :: "'a list \<Rightarrow> nat \<Rightarrow> nat \<Rightarrow> 'a list" where
  "py_slice xs i j = take (j - i) (drop i xs)"

text \<open>\<^verbatim>\<open>int.from_bytes(bs, byteorder="little")\<close>: unsigned, as \<^verbatim>\<open>signed\<close> defaults to False.\<close>

fun from_bytes_little :: "byte list \<Rightarrow> int" where
  "from_bytes_little [] = 0"
| "from_bytes_little (b # bs) = uint b + 256 * from_bytes_little bs"

definition is_ascii :: "byte list \<Rightarrow> bool" where
  "is_ascii bs = list_all (\<lambda>b. b < 0x80) bs"

text \<open>\<^verbatim>\<open>bs.decode('ascii')\<close>: strict, raises on the first byte above 0x7f.\<close>

definition decode_ascii :: "byte list \<Rightarrow> py_error + string" where
  "decode_ascii bs =
     (if is_ascii bs then Inr (map (\<lambda>b. char_of (uint b)) bs) else Inl UnicodeDecodeError)"

subsection \<open>The decoder\<close>

text \<open>
  \<^verbatim>\<open>_parse_int\<close> and \<^verbatim>\<open>_parse_int32\<close> read \<^verbatim>\<open>self._data\<close>, not the payload in hand;
  slicing \<^verbatim>\<open>None\<close> raises TypeError.
\<close>

definition parse_int :: "device \<Rightarrow> nat \<Rightarrow> py_error + int" where
  "parse_int s index =
     (case p_data s of
        None \<Rightarrow> Inl TypeError
      | Some d \<Rightarrow> Inr (from_bytes_little (py_slice d index (index + 2))))"

definition parse_int32 :: "device \<Rightarrow> nat \<Rightarrow> py_error + int" where
  "parse_int32 s index =
     (case p_data s of
        None \<Rightarrow> Inl TypeError
      | Some d \<Rightarrow> Inr (from_bytes_little (py_slice d index (index + 4))))"

text \<open>
  \<^verbatim>\<open>_parse_telemetry\<close>. The result is the exception that leaves the method, if any, and
  the object as the method leaves it. The indexed reads come after the length check, so
  they are in range. The assignment to \<^verbatim>\<open>unknown2\<close> is commented out in the source.
\<close>

definition parse_telemetry :: "device \<Rightarrow> byte list \<Rightarrow> datetime \<Rightarrow> py_error option \<times> device" where
  "parse_telemetry s0 data now =
     (if length data \<noteq> EXPECTED_TELEMETRY_SIZE then (None, s0)
      else if data ! 8 \<noteq> 0x05 \<or> data ! 9 \<noteq> 0x13 then (None, s0)
      else
        let s = s0\<lparr>p_data := Some data\<rparr>;
            s = s\<lparr>p_last_data_timestamp := Some now\<rparr>
        in (case decode_ascii (py_slice data 0x10 0x20) of Inl e \<Rightarrow> (Some e, s) | Inr v \<Rightarrow>
        let s = s\<lparr>p_serial_no := Some v\<rparr>;
            s = s\<lparr>p_charge_percentage_battery := Some (uint (data ! 35))\<rparr>;
            s = s\<lparr>unknown1 := Some (uint (data ! 39))\<rparr>;
            s = s\<lparr>p_temperature_battery := Some (uint (data ! 73))\<rparr>
        in (case parse_int s 77 of Inl e \<Rightarrow> (Some e, s) | Inr v \<Rightarrow>
        let s = s\<lparr>p_power_solar_in := Some (of_int v / 10)\<rparr>
        in (case parse_int s 84 of Inl e \<Rightarrow> (Some e, s) | Inr v \<Rightarrow>
        let s = s\<lparr>p_power_ac_out := Some (of_int v / 10)\<rparr>
        in (case parse_int32 s 103 of Inl e \<Rightarrow> (Some e, s) | Inr v \<Rightarrow>
        let s = s\<lparr>unknown3 := Some (of_int v / 100000)\<rparr>
        in (case parse_int32 s 110 of Inl e \<Rightarrow> (Some e, s) | Inr v \<Rightarrow>
        let s = s\<lparr>p_energy_solar_total_in := Some (of_int v / 10000)\<rparr>
        in (case parse_int32 s 117 of Inl e \<Rightarrow> (Some e, s) | Inr v \<Rightarrow>
        let s = s\<lparr>p_energy_battery_total_in := Some (of_int v / 100000)\<rparr>
        in (case parse_int32 s 124 of Inl e \<Rightarrow> (Some e, s) | Inr v \<Rightarrow>
        let s = s\<lparr>p_energy_total_out := Some (of_int v / 10000)\<rparr>
        in (case parse_int32 s 132 of Inl e \<Rightarrow> (Some e, s) | Inr v \<Rightarrow>
        let s = s\<lparr>p_power_battery_discharge := Some (of_int v / 100)\<rparr>
        in (None, s))))))))))"

subsection \<open>The wire format, as documented\<close>

text \<open>
  The unsigned little-endian integer of two and of four bytes at a byte offset, written
  out byte by byte. The decoder does not use these definitions; they are what the
  documented frame layout means, to compare the decoder with.
\<close>

definition le_uint16 :: "byte list \<Rightarrow> nat \<Rightarrow> int" where
  "le_uint16 d i = uint (d ! i) + 2 ^ 8 * uint (d ! (i + 1))"

definition le_uint32 :: "byte list \<Rightarrow> nat \<Rightarrow> int" where
  "le_uint32 d i =
     uint (d ! i) + 2 ^ 8 * uint (d ! (i + 1)) + 2 ^ 16 * uint (d ! (i + 2))
       + 2 ^ 24 * uint (d ! (i + 3))"

text \<open>The same four bytes read as a signed (two's complement) integer.\<close>

definition le_sint32 :: "byte list \<Rightarrow> nat \<Rightarrow> int" where
  "le_sint32 d i = (if le_uint32 d i < 2 ^ 31 then le_uint32 d i else le_uint32 d i - 2 ^ 32)"

subsection \<open>Example inputs\<close>

definition dev0 :: ble_device where
  "dev0 = \<lparr> address = ''F4:9D:8A:00:00:01'', name = None \<rparr>"

text \<open>A telemetry frame: marker bytes set, solar input 0x0064, byte 91 set, the rest zero.\<close>

definition frame_example :: "byte list" where
  "frame_example = (replicate 253 0)[8 := 0x05, 9 := 0x13, 77 := 0x64, 78 := 0x00, 91 := 0x2A]"

text \<open>A frame with the marker bytes and a byte above 0x7f in the serial number.\<close>

definition frame_non_ascii :: "byte list" where
  "frame_non_ascii = (replicate 253 0)[8 := 0x05, 9 := 0x13, 16 := 0x80]"

text \<open>A telemetry frame whose discharge field is 0xFFFFFFFF.\<close>

definition frame_discharge_ff :: "byte list" where
  "frame_discharge_ff =
     (replicate 253 0)[8 := 0x05, 9 := 0x13, 132 := 0xFF, 133 := 0xFF, 134 := 0xFF, 135 := 0xFF]"

subsection \<open>The collaborators\<close>

text \<open>
  What the transport library answers when the session asks: whether a client is connected
  (\<^verbatim>\<open>client.is_connected\<close>), the client that \<^verbatim>\<open>establish_connection\<close> returns or the
  exception it raises, whether the services of a client hold the telemetry characteristic
  (\<^verbatim>\<open>bool(services.get_characteristic(UUID_TELEMETRY))\<close>, or the exception raised on the
  way), and whether \<^verbatim>\<open>start_notify\<close> raises.
\<close>

record transport =
  is_connected :: "link \<Rightarrow> bool"
  establish_connection :: "int \<Rightarrow> py_error + link"
  get_characteristic :: "link \<Rightarrow> py_error + bool"
  start_notify :: "link \<Rightarrow> py_error option"

text \<open>
  A registered callback is code of the caller: it takes no argument and returns or raises.
  It holds the session, so besides the caller's own state \<open>'w\<close> it can change the session
  while it runs, the list of registered callbacks included (\<^verbatim>\<open>add_callback\<close> and
  \<^verbatim>\<open>remove_callback\<close> are the synchronous methods a callback can call). The behaviour of
  the callbacks is a parameter: what callback \<open>f\<close> does to the session and to the caller's
  state, and whether it raises.
\<close>

type_synonym 'w callbacks = "callback \<Rightarrow> device \<Rightarrow> 'w \<Rightarrow> py_error option \<times> device \<times> 'w"

text \<open>The calls that leave the session, in the order they are made.\<close>

datatype event =
    EstablishConnection int
  | GetServices link
  | StartNotify link
  | ClientDisconnect link
  | Invoke callback
  | CreateTask nat

subsection \<open>Properties\<close>

definition connected_prop :: "transport \<Rightarrow> device \<Rightarrow> bool" where
  "connected_prop env s = (case p_client s of None \<Rightarrow> False | Some c \<Rightarrow> is_connected env c)"

definition supports_telemetry :: "device \<Rightarrow> bool" where
  "supports_telemetry s = p_supports_telemetry s"

definition available :: "transport \<Rightarrow> device \<Rightarrow> bool" where
  "available env s = (connected_prop env s \<and> supports_telemetry s)"

definition last_update :: "device \<Rightarrow> datetime option" where
  "last_update s = p_last_data_timestamp s"

definition power_ac_out :: "device \<Rightarrow> rat" where
  "power_ac_out s =
     (case p_power_ac_out s of Some v \<Rightarrow> v | None \<Rightarrow> of_int DEFAULT_METADATA_INT)"

definition power_solar_in :: "device \<Rightarrow> rat" where
  "power_solar_in s =
     (case p_power_solar_in s of Some v \<Rightarrow> v | None \<Rightarrow> of_int DEFAULT_METADATA_INT)"

definition power_battery :: "device \<Rightarrow> rat" where
  "power_battery s =
     (case (p_power_solar_in s, p_power_ac_out s) of
        (Some a, Some b) \<Rightarrow> a - b
      | _ \<Rightarrow> of_int DEFAULT_METADATA_INT)"

definition power_battery_discharge :: "device \<Rightarrow> rat" where
  "power_battery_discharge s =
     (case p_power_battery_discharge s of Some v \<Rightarrow> v | None \<Rightarrow> of_int DEFAULT_METADATA_INT)"

subsection \<open>Callbacks\<close>

definition add_callback :: "device \<Rightarrow> callback \<Rightarrow> device" where
  "add_callback s f = s\<lparr>p_state_changed_callbacks := p_state_changed_callbacks s @ [f]\<rparr>"

text \<open>\<^verbatim>\<open>list.remove\<close> takes the first occurrence out and raises ValueError when there is none.\<close>

definition remove_callback :: "device \<Rightarrow> callback \<Rightarrow> py_error + device" where
  "remove_callback s f =
     (if f \<in> set (p_state_changed_callbacks s)
      then Inr (s\<lparr>p_state_changed_callbacks := remove1 f (p_state_changed_callbacks s)\<rparr>)
      else Inl ValueError)"

text \<open>
  The loop of \<^verbatim>\<open>_run_state_changed_callbacks\<close>: \<^verbatim>\<open>for function in
  self._state_changed_callbacks: function()\<close>. Python's iterator over a list keeps an
  index into the list itself: each round it stops if the index has reached the present
  length of the list, and otherwise takes the element at the index and advances. So the
  loop sees what a callback does to the list while it runs, and a callback that registers
  another one each time keeps it running for ever: the result \<open>None\<close> is the loop that
  does not return. There is no handler around the call, so the first exception ends the
  loop and leaves the method. The model reads the list of the session at every round, which
  is what the iterator sees as long as the list is changed in place, as \<^verbatim>\<open>add_callback\<close>
  and \<^verbatim>\<open>remove_callback\<close> do.
\<close>

partial_function (option) run_callbacks_from ::
    "'w callbacks \<Rightarrow> nat \<Rightarrow> event list \<Rightarrow> device \<Rightarrow> 'w
      \<Rightarrow> (py_error option \<times> event list \<times> device \<times> 'w) option" where
  "run_callbacks_from call i evs s w =
     (if i < length (p_state_changed_callbacks s) then
        (case call (p_state_changed_callbacks s ! i) s w of
           (Some e, s', w') \<Rightarrow>
             Some (Some e, evs @ [Invoke (p_state_changed_callbacks s ! i)], s', w')
         | (None, s', w') \<Rightarrow>
             run_callbacks_from call (i + 1) (evs @ [Invoke (p_state_changed_callbacks s ! i)]) s' w')
      else Some (None, evs, s, w))"

definition run_state_changed_callbacks ::
    "'w callbacks \<Rightarrow> device \<Rightarrow> 'w \<Rightarrow> (py_error option \<times> event list \<times> device \<times> 'w) option" where
  "run_state_changed_callbacks call s w = run_callbacks_from call 0 [] s w"

text \<open>
  For comparison, the loop over a list that does not change while the loop runs: one call
  for each element, in order, up to the first call that raises. The session does not use
  this definition.
\<close>

fun run_fixed ::
    "'w callbacks \<Rightarrow> callback list \<Rightarrow> device \<Rightarrow> 'w \<Rightarrow> py_error option \<times> event list \<times> device \<times> 'w" where
  "run_fixed call [] s w = (None, [], s, w)"
| "run_fixed call (f # fs) s w =
     (case call f s w of
        (Some e, s', w') \<Rightarrow> (Some e, [Invoke f], s', w')
      | (None, s', w') \<Rightarrow>
          (case run_fixed call fs s' w' of (r, evs, s'', w'') \<Rightarrow> (r, Invoke f # evs, s'', w'')))"

subsection \<open>Connecting and disconnecting\<close>

text \<open>\<^verbatim>\<open>_determine_services\<close>; reading \<^verbatim>\<open>self._client.services\<close> of no client raises.\<close>

definition determine_services :: "transport \<Rightarrow> device \<Rightarrow> py_error option \<times> device \<times> event list" where
  "determine_services env s =
     (case p_client s of
        None \<Rightarrow> (Some AttributeError, s, [])
      | Some c \<Rightarrow>
          (case get_characteristic env c of
             Inl e \<Rightarrow> (Some e, s, [GetServices c])
           | Inr b \<Rightarrow> (None, s\<lparr>p_supports_telemetry := b\<rparr>, [GetServices c])))"

text \<open>\<^verbatim>\<open>_subscribe_to_services\<close>\<close>

definition subscribe_to_services :: "transport \<Rightarrow> device \<Rightarrow> py_error option \<times> device \<times> event list" where
  "subscribe_to_services env s =
     (if p_supports_telemetry s then
        (case p_client s of
           None \<Rightarrow> (Some AttributeError, s, [])
         | Some c \<Rightarrow> (start_notify env c, s, [StartNotify c]))
      else (None, s, []))"

text \<open>
  \<^verbatim>\<open>connect\<close>. The result is \<open>None\<close> when the method does not return (its callbacks run
  for ever), and otherwise the value returned (\<open>Inr\<close>) or the exception that leaves the
  method (\<open>Inl\<close>), the object, the calls made, and the state of the callbacks' owner.
  Both \<^verbatim>\<open>try\<close> blocks catch \<^verbatim>\<open>BleakError\<close> only.
\<close>

definition connect ::
    "transport \<Rightarrow> 'w callbacks \<Rightarrow> device \<Rightarrow> 'w \<Rightarrow> int \<Rightarrow> bool
      \<Rightarrow> ((py_error + bool) \<times> device \<times> event list \<times> 'w) option" where
  "connect env call s0 w max_attempts run_cbs =
     (case (if \<not> connected_prop env s0 then
              (let s = s0\<lparr>p_connection_attempts := p_connection_attempts s0 + 1\<rparr> in
               (case establish_connection env max_attempts of
                  Inr c \<Rightarrow> (None, s\<lparr>p_client := Some c\<rparr>, [EstablishConnection max_attempts])
                | Inl e \<Rightarrow> (if e = BleakError then None else Some e, s,
                            [EstablishConnection max_attempts])))
            else (None, s0, []))
      of
        (Some e, s1, ev1) \<Rightarrow> Some (Inl e, s1, ev1, w)
      | (None, s1, ev1) \<Rightarrow>
     (if \<not> connected_prop env s1 then Some (Inr False, s1, ev1, w)
      else
     (case (if \<not> available env s1 then
              (case determine_services env s1 of
                 (Some e, s, ev) \<Rightarrow> (Some e, s, ev)
               | (None, s, ev) \<Rightarrow>
                   (case subscribe_to_services env s of (r, s', ev') \<Rightarrow> (r, s', ev @ ev')))
            else (None, s1, []))
      of
        (Some e, s2, ev2) \<Rightarrow>
          Some (if e = BleakError then Inr False else Inl e, s2, ev1 @ ev2, w)
      | (None, s2, ev2) \<Rightarrow>
     (if \<not> available env s2 then Some (Inr False, s2, ev1 @ ev2, w)
      else
        (let s3 = s2\<lparr>p_expect_disconnect := False\<rparr>;
             s3 = s3\<lparr>p_connection_attempts := 0\<rparr>
         in if run_cbs then
              (case run_state_changed_callbacks call s3 w of
                 None \<Rightarrow> None
               | Some (Some e, ev3, s4, w') \<Rightarrow> Some (Inl e, s4, ev1 @ ev2 @ ev3, w')
               | Some (None, ev3, s4, w') \<Rightarrow> Some (Inr True, s4, ev1 @ ev2 @ ev3, w'))
            else Some (Inr True, s3, ev1 @ ev2, w))))))"

text \<open>
  \<^verbatim>\<open>disconnect\<close>. The call \<^verbatim>\<open>self._client.disconnect()\<close> is made without \<^verbatim>\<open>await\<close> and
  the client is dropped at once; the method does not touch \<^verbatim>\<open>_supports_telemetry\<close>.
\<close>

definition disconnect :: "device \<Rightarrow> device \<times> event list" where
  "disconnect s0 =
     (let s = s0\<lparr>p_expect_disconnect := True\<rparr>
      in case p_client s of
           None \<Rightarrow> (s, [])
         | Some c \<Rightarrow> (s\<lparr>p_client := None\<rparr>, [ClientDisconnect c]))"

text \<open>
  \<^verbatim>\<open>_disconnect_callback\<close>, the handler the transport calls with the client that lost its
  link. \<open>task\<close> is the handle that \<^verbatim>\<open>asyncio.create_task\<close> returns.
\<close>

definition disconnect_callback :: "device \<Rightarrow> link \<Rightarrow> nat \<Rightarrow> device \<times> event list" where
  "disconnect_callback s0 client task =
     (if Some client \<noteq> p_client s0 then (s0, [])
      else
        let s = s0\<lparr>p_supports_telemetry := False\<rparr>
        in if p_expect_disconnect s then (s, [])
           else if RECONNECT_ATTEMPTS_MAX = - 1 \<or> p_connection_attempts s < RECONNECT_ATTEMPTS_MAX
           then (s\<lparr>p_reconnect_task := Some task\<rparr>, [CreateTask task])
           else (s, []))"

subsection \<open>Example sessions\<close>

text \<open>A transport on which every client is connected and every call succeeds.\<close>

definition env_up :: transport where
  "env_up = \<lparr> is_connected = (\<lambda>c. True), establish_connection = (\<lambda>m. Inr 2),
              get_characteristic = (\<lambda>c. Inr True), start_notify = (\<lambda>c. None) \<rparr>"

text \<open>Callback 0 raises, every other callback returns; none touches the session.\<close>

definition call_first_raises :: "unit callbacks" where
  "call_first_raises f s w = (if f = 0 then (Some CallbackError, s, w) else (None, s, w))"

text \<open>Every callback returns and leaves the session as it is.\<close>

definition call_all_return :: "unit callbacks" where
  "call_all_return f s w = (None, s, w)"

text \<open>
  Callback 0 unregisters itself with \<^verbatim>\<open>remove_callback\<close> (and does not catch the
  ValueError of a second removal); every other callback returns.
\<close>

definition call_first_unregisters :: "unit callbacks" where
  "call_first_unregisters f s w =
     (if f = 0 then
        (case remove_callback s 0 of Inr s' \<Rightarrow> (None, s', w) | Inl e \<Rightarrow> (Some e, s, w))
      else (None, s, w))"

text \<open>A session that holds client 1, is subscribed to telemetry and has callback 0 registered.\<close>

definition session_available :: device where
  "session_available =
     (init dev0)\<lparr>p_client := Some 1, p_supports_telemetry := True,
                 p_state_changed_callbacks := [0], p_expect_disconnect := False\<rparr>"

text \<open>A session with the callbacks 1, 0 and 2 registered, in this order.\<close>

definition session_three :: device where
  "session_three = add_callback (add_callback (add_callback (init dev0) 1) 0) 2"

text \<open>A session with the callbacks 0 and 1 registered, in this order.\<close>

definition session_two :: device where
  "session_two = add_callback (add_callback (init dev0) 0) 1"

section \<open>Facts about the decoder\<close>

lemma take_2_drop:
  "i + 1 < length d \<Longrightarrow> take 2 (drop i d) = [d ! i, d ! (i + 1)]"
  by (simp add: numeral_2_eq_2 take_Suc_conv_app_nth)

lemma take_4_drop:
  "i + 3 < length d \<Longrightarrow> take 4 (drop i d) = [d ! i, d ! (i + 1), d ! (i + 2), d ! (i + 3)]"
  by (simp add: eval_nat_numeral take_Suc_conv_app_nth)

lemma parse_int_le:
  "p_data s = Some d \<Longrightarrow> i + 1 < length d \<Longrightarrow> parse_int s i = Inr (le_uint16 d i)"
  by (simp add: parse_int_def py_slice_def take_2_drop le_uint16_def)

lemma parse_int32_le:
  "p_data s = Some d \<Longrightarrow> i + 3 < length d \<Longrightarrow> parse_int32 s i = Inr (le_uint32 d i)"
  by (simp add: parse_int32_def py_slice_def take_4_drop le_uint32_def)

text \<open>The serial number is ASCII exactly when each of the bytes 16 to 31 is below 0x80.\<close>

lemma is_ascii_serial_iff:
  assumes "32 \<le> length data"
  shows "is_ascii (py_slice data 0x10 0x20) \<longleftrightarrow> (\<forall>i. 16 \<le> i \<and> i < 32 \<longrightarrow> data ! i < 0x80)"
proof
  assume a: "is_ascii (py_slice data 0x10 0x20)"
  show "\<forall>i. 16 \<le> i \<and> i < 32 \<longrightarrow> data ! i < 0x80"
  proof (intro allI impI)
    fix i :: nat
    assume i: "16 \<le> i \<and> i < 32"
    then have k: "i - 16 < 16" by arith
    with a assms have "take 16 (drop 16 data) ! (i - 16) < 0x80"
      by (simp add: is_ascii_def py_slice_def list_all_length)
    moreover from k assms have "take 16 (drop 16 data) ! (i - 16) = data ! (16 + (i - 16))"
      by simp
    moreover from i have "16 + (i - 16) = i" by arith
    ultimately show "data ! i < 0x80" by simp
  qed
next
  assume a: "\<forall>i. 16 \<le> i \<and> i < 32 \<longrightarrow> data ! i < 0x80"
  show "is_ascii (py_slice data 0x10 0x20)"
    unfolding is_ascii_def py_slice_def list_all_length
  proof (intro allI impI)
    fix n
    assume "n < length (take (0x20 - 0x10) (drop 0x10 data))"
    with assms have n: "n < 16" by simp
    with a have "data ! (16 + n) < 0x80" by simp
    with n assms show "take (0x20 - 0x10) (drop 0x10 data) ! n < 0x80" by simp
  qed
qed

text \<open>What the decoder does with a telemetry frame whose serial number is ASCII.\<close>

lemma parse_telemetry_valid:
  assumes "length data = 253" "data ! 8 = 0x05" "data ! 9 = 0x13"
    and "is_ascii (py_slice data 0x10 0x20)"
  shows "parse_telemetry s data now =
    (None, s\<lparr>p_data := Some data,
             p_last_data_timestamp := Some now,
             p_serial_no := Some (map (\<lambda>b. char_of (uint b)) (py_slice data 0x10 0x20)),
             p_charge_percentage_battery := Some (uint (data ! 35)),
             unknown1 := Some (uint (data ! 39)),
             p_temperature_battery := Some (uint (data ! 73)),
             p_power_solar_in := Some (of_int (le_uint16 data 77) / 10),
             p_power_ac_out := Some (of_int (le_uint16 data 84) / 10),
             unknown3 := Some (of_int (le_uint32 data 103) / 100000),
             p_energy_solar_total_in := Some (of_int (le_uint32 data 110) / 10000),
             p_energy_battery_total_in := Some (of_int (le_uint32 data 117) / 100000),
             p_energy_total_out := Some (of_int (le_uint32 data 124) / 10000),
             p_power_battery_discharge := Some (of_int (le_uint32 data 132) / 100)\<rparr>)"
  using assms
  by (simp add: parse_telemetry_def EXPECTED_TELEMETRY_SIZE_def decode_ascii_def Let_def
      parse_int_le parse_int32_le)

text \<open>What it does when the serial number is not ASCII.\<close>

lemma parse_telemetry_non_ascii:
  assumes "length data = 253" "data ! 8 = 0x05" "data ! 9 = 0x13"
    and "\<not> is_ascii (py_slice data 0x10 0x20)"
  shows "parse_telemetry s data now =
    (Some UnicodeDecodeError, s\<lparr>p_data := Some data, p_last_data_timestamp := Some now\<rparr>)"
  using assms
  by (simp add: parse_telemetry_def EXPECTED_TELEMETRY_SIZE_def decode_ascii_def Let_def)

lemma frame_example_valid:
  "length frame_example = 253" "frame_example ! 8 = 0x05" "frame_example ! 9 = 0x13"
  "is_ascii (py_slice frame_example 0x10 0x20)"
  by (simp_all add: frame_example_def) code_simp

lemma frame_non_ascii_shape:
  "length frame_non_ascii = 253" "frame_non_ascii ! 8 = 0x05" "frame_non_ascii ! 9 = 0x13"
  "\<not> is_ascii (py_slice frame_non_ascii 0x10 0x20)"
  by (simp_all add: frame_non_ascii_def) code_simp

lemma frame_discharge_ff_valid:
  "length frame_discharge_ff = 253" "frame_discharge_ff ! 8 = 0x05" "frame_discharge_ff ! 9 = 0x13"
  "is_ascii (py_slice frame_discharge_ff 0x10 0x20)"
  by (simp_all add: frame_discharge_ff_def) code_simp

lemma valid_frame_is_ascii:
  assumes "length data = 253" and "\<forall>i. 16 \<le> i \<and> i < 32 \<longrightarrow> data ! i < 0x80"
  shows "is_ascii (py_slice data 0x10 0x20)"
  using assms by (simp add: is_ascii_serial_iff)

lemma frame_example_serial: "\<forall>i. 16 \<le> i \<and> i < 32 \<longrightarrow> frame_example ! i < 0x80"
  using frame_example_valid by (simp add: is_ascii_serial_iff)

lemma le_uint32_range: "0 \<le> le_uint32 d i \<and> le_uint32 d i < 2 ^ 32"
proof -
  have b: "\<And>x :: byte. 0 \<le> uint x \<and> uint x < 256"
    using uint_lt2p [where 'a = 8] by (simp add: less_le_not_le)
  from b [of "d ! i"] b [of "d ! (i + 1)"] b [of "d ! (i + 2)"] b [of "d ! (i + 3)"]
  show ?thesis by (simp add: le_uint32_def)
qed

section \<open>Facts about the session\<close>

text \<open>
  When no callback changes the list of registered callbacks, the loop over the list of the
  session is the loop over a list that does not change.
\<close>

lemma run_callbacks_from_fixed:
  assumes H: "\<And>f s w. p_state_changed_callbacks (fst (snd (call f s w))) = p_state_changed_callbacks s"
  shows "run_callbacks_from call i evs s w =
     Some (case run_fixed call (drop i (p_state_changed_callbacks s)) s w of
             (r, evs', s', w') \<Rightarrow> (r, evs @ evs', s', w'))"
proof (induction "length (p_state_changed_callbacks s) - i" arbitrary: i evs s w)
  case 0
  then have "drop i (p_state_changed_callbacks s) = []" by simp
  with 0 show ?case
    by (subst run_callbacks_from.simps) simp
next
  case (Suc n)
  then have lt: "i < length (p_state_changed_callbacks s)" by arith
  let ?f = "p_state_changed_callbacks s ! i"
  have d: "drop i (p_state_changed_callbacks s) = ?f # drop (i + 1) (p_state_changed_callbacks s)"
    using lt by (simp add: Cons_nth_drop_Suc)
  obtain r s1 w1 where c: "call ?f s w = (r, s1, w1)"
    by (cases "call ?f s w")
  from H [of ?f s w] c have k: "p_state_changed_callbacks s1 = p_state_changed_callbacks s"
    by simp
  show ?case
  proof (cases r)
    case (Some e)
    with c lt d show ?thesis
      by (subst run_callbacks_from.simps) simp
  next
    case None
    obtain r2 evs2 s2 w2 where p:
      "run_fixed call (drop (i + 1) (p_state_changed_callbacks s)) s1 w1 = (r2, evs2, s2, w2)"
      by (cases "run_fixed call (drop (i + 1) (p_state_changed_callbacks s)) s1 w1")
    from Suc.hyps(2) k have "n = length (p_state_changed_callbacks s1) - (i + 1)" by simp
    from Suc.hyps(1) [OF this, of "evs @ [Invoke ?f]" w1]
    have q: "run_callbacks_from call (i + 1) (evs @ [Invoke ?f]) s1 w1 =
        Some (r2, (evs @ [Invoke ?f]) @ evs2, s2, w2)"
      using p by (simp add: k)
    have "run_callbacks_from call i evs s w =
        run_callbacks_from call (i + 1) (evs @ [Invoke ?f]) s1 w1"
      using None c lt by (subst run_callbacks_from.simps) simp
    with q have "run_callbacks_from call i evs s w = Some (r2, evs @ Invoke ?f # evs2, s2, w2)"
      by simp
    moreover from None c p
    have "run_fixed call (?f # drop (i + 1) (p_state_changed_callbacks s)) s w
        = (r2, Invoke ?f # evs2, s2, w2)"
      by simp
    ultimately show ?thesis unfolding d by simp
  qed
qed

lemma run_state_changed_callbacks_fixed:
  assumes "\<And>f s w. p_state_changed_callbacks (fst (snd (call f s w))) = p_state_changed_callbacks s"
  shows "run_state_changed_callbacks call s w = Some (run_fixed call (p_state_changed_callbacks s) s w)"
  unfolding run_state_changed_callbacks_def run_callbacks_from_fixed [of call, OF assms]
  by (simp split: prod.splits)

lemma run_fixed_all_return:
  "\<forall>f \<in> set fs. \<forall>s w. fst (call f s w) = None \<Longrightarrow>
     \<exists>s' w'. run_fixed call fs s w = (None, map Invoke fs, s', w')"
proof (induction fs arbitrary: s w)
  case Nil
  then show ?case by simp
next
  case (Cons g gs)
  obtain s1 w1 where c: "call g s w = (None, s1, w1)"
    using Cons.prems by (cases "call g s w") (metis fst_conv list.set_intros(1))
  from Cons.prems have "\<forall>f \<in> set gs. \<forall>s w. fst (call f s w) = None" by simp
  from Cons.IH [OF this, of s1 w1] obtain s' w' where
    "run_fixed call gs s1 w1 = (None, map Invoke gs, s', w')" by blast
  with c show ?case by simp
qed

lemma run_fixed_raise:
  "\<forall>g \<in> set pre. \<forall>s w. fst (call g s w) = None \<Longrightarrow> \<forall>s w. fst (call f s w) = Some e \<Longrightarrow>
     \<exists>s' w'. run_fixed call (pre @ f # post) s w = (Some e, map Invoke (pre @ [f]), s', w')"
proof (induction pre arbitrary: s w)
  case Nil
  obtain s1 w1 where "call f s w = (Some e, s1, w1)"
    using Nil.prems(2) by (cases "call f s w") (metis fst_conv)
  then show ?case by simp
next
  case (Cons g gs)
  obtain s1 w1 where c: "call g s w = (None, s1, w1)"
    using Cons.prems(1) by (cases "call g s w") (metis fst_conv list.set_intros(1))
  from Cons.prems have "\<forall>h \<in> set gs. \<forall>s w. fst (call h s w) = None" by simp
  from Cons.IH [OF this Cons.prems(2), of s1 w1] obtain s' w' where
    "run_fixed call (gs @ f # post) s1 w1 = (Some e, map Invoke (gs @ [f]), s', w')" by blast
  with c show ?case by simp
qed

lemma run_fixed_shape:
  "run_fixed call fs s w = (r, evs, s', w') \<Longrightarrow>
     (r = None \<and> evs = map Invoke fs)
   \<or> (\<exists>pre f post e. fs = pre @ f # post \<and> evs = map Invoke (pre @ [f]) \<and> r = Some e)"
proof (induction fs arbitrary: s w r evs s' w')
  case Nil
  then show ?case by simp
next
  case (Cons g gs)
  obtain x s1 w1 where c: "call g s w = (x, s1, w1)" by (cases "call g s w")
  show ?case
  proof (cases x)
    case (Some e)
    with c Cons.prems have "r = Some e" "evs = [Invoke g]" by simp_all
    then have "g # gs = [] @ g # gs \<and> evs = map Invoke ([] @ [g]) \<and> r = Some e" by simp
    then show ?thesis by blast
  next
    case None
    obtain r1 evs1 s2 w2 where p: "run_fixed call gs s1 w1 = (r1, evs1, s2, w2)"
      by (cases "run_fixed call gs s1 w1")
    with None c Cons.prems have e: "r = r1" "evs = Invoke g # evs1" by simp_all
    from Cons.IH [OF p] show ?thesis
    proof
      assume "r1 = None \<and> evs1 = map Invoke gs"
      with e show ?thesis by simp
    next
      assume "\<exists>pre f post e. gs = pre @ f # post \<and> evs1 = map Invoke (pre @ [f]) \<and> r1 = Some e"
      then obtain pre f post e' where "gs = pre @ f # post" "evs1 = map Invoke (pre @ [f])" "r1 = Some e'"
        by blast
      with e have "g # gs = (g # pre) @ f # post \<and> evs = map Invoke ((g # pre) @ [f]) \<and> r = Some e'"
        by simp
      then show ?thesis by blast
    qed
  qed
qed


lemma run_callbacks_from_events_aux:
  assumes "run_callbacks_from call i evs s w = Some y"
  shows "(\<forall>e \<in> set evs. \<exists>f. e = Invoke f) \<longrightarrow> (\<forall>e \<in> set (fst (snd y)). \<exists>f. e = Invoke f)"
proof (rule run_callbacks_from.raw_induct
    [where P = "\<lambda>call i evs s w y.
        (\<forall>e \<in> set evs. \<exists>f. e = Invoke f) \<longrightarrow> (\<forall>e \<in> set (fst (snd y)). \<exists>f. e = Invoke f)",
      OF _ assms])
  fix rec :: "'a callbacks \<Rightarrow> nat \<Rightarrow> event list \<Rightarrow> device \<Rightarrow> 'a
      \<Rightarrow> (py_error option \<times> event list \<times> device \<times> 'a) option"
  fix call i evs s w y
  assume IH: "\<And>call i evs s w y. rec call i evs s w = Some y \<Longrightarrow>
      (\<forall>e \<in> set evs. \<exists>f. e = Invoke f) \<longrightarrow> (\<forall>e \<in> set (fst (snd y)). \<exists>f. e = Invoke f)"
  assume body: "(if i < length (p_state_changed_callbacks s) then
        (case call (p_state_changed_callbacks s ! i) s w of
           (None, s', w') \<Rightarrow>
             rec call (i + 1) (evs @ [Invoke (p_state_changed_callbacks s ! i)]) s' w'
         | (Some e, s', w') \<Rightarrow>
             Some (Some e, evs @ [Invoke (p_state_changed_callbacks s ! i)], s', w'))
      else Some (None, evs, s, w)) = Some y"
  show "(\<forall>e \<in> set evs. \<exists>f. e = Invoke f) \<longrightarrow> (\<forall>e \<in> set (fst (snd y)). \<exists>f. e = Invoke f)"
  proof (cases "i < length (p_state_changed_callbacks s)")
    case False
    with body show ?thesis by auto
  next
    case True
    obtain x s1 w1 where c: "call (p_state_changed_callbacks s ! i) s w = (x, s1, w1)"
      by (cases "call (p_state_changed_callbacks s ! i) s w")
    show ?thesis
    proof (cases x)
      case (Some e)
      with True c body show ?thesis by auto
    next
      case None
      with True c body
      have "rec call (i + 1) (evs @ [Invoke (p_state_changed_callbacks s ! i)]) s1 w1 = Some y"
        by simp
      from IH [OF this] show ?thesis by auto
    qed
  qed
qed

lemma run_state_changed_callbacks_events:
  "run_state_changed_callbacks call s w = Some (r, evs, s', w') \<Longrightarrow> \<forall>e \<in> set evs. \<exists>f. e = Invoke f"
  unfolding run_state_changed_callbacks_def
  using run_callbacks_from_events_aux [of call 0 "[]" s w "(r, evs, s', w')"] by simp

text \<open>At any round, a callback that raises ends the loop, whatever it did to the list.\<close>

lemma run_callbacks_from_raise:
  assumes "i < length (p_state_changed_callbacks s)"
    and "call (p_state_changed_callbacks s ! i) s w = (Some e, s', w')"
  shows "run_callbacks_from call i evs s w
           = Some (Some e, evs @ [Invoke (p_state_changed_callbacks s ! i)], s', w')"
  using assms by (subst run_callbacks_from.simps) simp

text \<open>
  \<^verbatim>\<open>connect\<close> on a session that is connected and has the telemetry flag set skips both
  \<^verbatim>\<open>if\<close> blocks.
\<close>

lemma connect_short_circuit:
  assumes "connected_prop env s" and "supports_telemetry s"
  shows "connect env call s w max_attempts run_cbs =
    (if run_cbs then
       (case run_state_changed_callbacks call
               (s\<lparr>p_expect_disconnect := False, p_connection_attempts := 0\<rparr>) w of
          None \<Rightarrow> None
        | Some (x, evs, s', w') \<Rightarrow>
            Some (case x of None \<Rightarrow> Inr True | Some e \<Rightarrow> Inl e, s', evs, w'))
     else Some (Inr True, s\<lparr>p_expect_disconnect := False, p_connection_attempts := 0\<rparr>, [], w))"
proof -
  have a: "available env s" using assms by (simp add: available_def)
  show ?thesis
    using assms(1) a
    by (simp add: connect_def Let_def split: prod.splits option.splits)
qed

lemma run_untouched:
  assumes "\<And>f s w. fst (snd (call f s w)) = s"
  shows "fst (snd (snd (run_fixed call fs s w))) = s"
proof (induction fs arbitrary: w)
  case Nil
  show ?case by simp
next
  case (Cons g gs)
  obtain x s1 w1 where c: "call g s w = (x, s1, w1)" by (cases "call g s w")
  with assms [of g s w] have "s1 = s" by simp
  with c Cons.IH [of w1] show ?case
    by (cases x) (auto split: prod.splits)
qed

section \<open>Foreign traffic is ignored\<close>

text \<open>
  C3. A payload whose length is not 253 bytes, and a payload of 253 bytes whose bytes at
  offsets 8 and 9 are not 0x05 and 0x13, is dropped: \<^verbatim>\<open>_parse_telemetry\<close> raises nothing
  and returns the object exactly as it was, so the stored data, the timestamp and every
  decoded field are unchanged.
\<close>

theorem parse_telemetry_foreign_noop:
  assumes "length data \<noteq> 253 \<or> \<not> (data ! 8 = 0x05 \<and> data ! 9 = 0x13)"
  shows "parse_telemetry s data now = (None, s)"
  using assms by (auto simp: parse_telemetry_def EXPECTED_TELEMETRY_SIZE_def)

theorem parse_telemetry_foreign_noop_witness:
  "length ([] :: byte list) \<noteq> 253
   \<and> parse_telemetry (init dev0) [] 42 = (None, init dev0)
   \<and> length (replicate 253 (0 :: byte)) = 253 \<and> replicate 253 (0 :: byte) ! 8 \<noteq> 0x05
   \<and> parse_telemetry (init dev0) (replicate 253 0) 42 = (None, init dev0)"
proof -
  have a: "length ([] :: byte list) \<noteq> 253 \<or> \<not> (([] :: byte list) ! 8 = 0x05 \<and> ([] :: byte list) ! 9 = 0x13)"
    by simp
  have b: "replicate 253 (0 :: byte) ! 8 \<noteq> 0x05" by simp
  then have c: "length (replicate 253 (0 :: byte)) \<noteq> 253
      \<or> \<not> (replicate 253 (0 :: byte) ! 8 = 0x05 \<and> replicate 253 (0 :: byte) ! 9 = 0x13)"
    by simp
  from parse_telemetry_foreign_noop [OF a, of "init dev0" 42]
    parse_telemetry_foreign_noop [OF c, of "init dev0" 42] b
  show ?thesis by simp
qed

section \<open>A frame whose serial number is not ASCII\<close>

text \<open>
  C1, as the specification states it: a payload of 253 bytes with the marker bytes whose
  field extraction fails makes \<^verbatim>\<open>_parse_telemetry\<close> signal an error and leaves the stored
  data, the timestamp and every decoded field as they were. On the code this fails: the
  method assigns \<^verbatim>\<open>_data\<close> and \<^verbatim>\<open>_last_data_timestamp\<close> before it decodes the serial
  number, and nothing restores them when the decoding raises. On a fresh session the frame
  below raises UnicodeDecodeError and leaves the stored data and the timestamp set.
\<close>

theorem parse_telemetry_malformed_counterexample:
  "length frame_non_ascii = 253 \<and> frame_non_ascii ! 8 = 0x05 \<and> frame_non_ascii ! 9 = 0x13
   \<and> \<not> is_ascii (py_slice frame_non_ascii 0x10 0x20)
   \<and> fst (parse_telemetry (init dev0) frame_non_ascii 42) = Some UnicodeDecodeError
   \<and> p_data (init dev0) = None
   \<and> p_data (snd (parse_telemetry (init dev0) frame_non_ascii 42)) = Some frame_non_ascii
   \<and> p_last_data_timestamp (init dev0) = None
   \<and> p_last_data_timestamp (snd (parse_telemetry (init dev0) frame_non_ascii 42)) = Some 42
   \<and> snd (parse_telemetry (init dev0) frame_non_ascii 42) \<noteq> init dev0"
proof -
  have r: "parse_telemetry (init dev0) frame_non_ascii 42 =
      (Some UnicodeDecodeError, (init dev0)\<lparr>p_data := Some frame_non_ascii, p_last_data_timestamp := Some 42\<rparr>)"
    by (rule parse_telemetry_non_ascii [OF frame_non_ascii_shape])
  have n: "p_data (init dev0) = None" "p_last_data_timestamp (init dev0) = None"
    by (simp_all add: init_def)
  have "p_data (snd (parse_telemetry (init dev0) frame_non_ascii 42)) \<noteq> p_data (init dev0)"
    by (simp add: r n)
  then have "snd (parse_telemetry (init dev0) frame_non_ascii 42) \<noteq> init dev0"
    by auto
  with r n frame_non_ascii_shape show ?thesis by simp
qed

text \<open>
  C1, amended: for every payload of 253 bytes with the marker bytes and a byte above 0x7f
  among the bytes 16 to 31, \<^verbatim>\<open>_parse_telemetry\<close> raises UnicodeDecodeError; the stored data
  and the timestamp are then those of the new payload, and every decoded field is as it was
  before the call. Decoding the serial number is the only extraction that can fail on a
  payload of this length.
\<close>

theorem parse_telemetry_non_ascii_serial:
  assumes "length data = 253" and "data ! 8 = 0x05" and "data ! 9 = 0x13"
    and "\<exists>i. 16 \<le> i \<and> i < 32 \<and> 0x80 \<le> data ! i"
  shows "parse_telemetry s data now =
    (Some UnicodeDecodeError, s\<lparr>p_data := Some data, p_last_data_timestamp := Some now\<rparr>)"
proof -
  from assms(1,4) have "\<not> is_ascii (py_slice data 0x10 0x20)"
    by (auto simp: is_ascii_serial_iff not_less)
  with assms(1-3) show ?thesis by (rule parse_telemetry_non_ascii)
qed

theorem parse_telemetry_non_ascii_serial_witness:
  "length frame_non_ascii = 253 \<and> frame_non_ascii ! 8 = 0x05 \<and> frame_non_ascii ! 9 = 0x13
   \<and> (16::nat) \<le> 16 \<and> (16::nat) < 32 \<and> 0x80 \<le> frame_non_ascii ! 16
   \<and> parse_telemetry (init dev0) frame_non_ascii 42 =
      (Some UnicodeDecodeError,
       (init dev0)\<lparr>p_data := Some frame_non_ascii, p_last_data_timestamp := Some 42\<rparr>)"
proof -
  have h: "0x80 \<le> frame_non_ascii ! 16" by (simp add: frame_non_ascii_def)
  then have "\<exists>i. 16 \<le> i \<and> i < 32 \<and> 0x80 \<le> frame_non_ascii ! i" by (intro exI [of _ 16]) simp
  from parse_telemetry_non_ascii_serial [OF frame_non_ascii_shape(1-3) this, where s = "init dev0" and now = 42] h
    frame_non_ascii_shape(1-3)
  show ?thesis by simp
qed

section \<open>The decoded fields\<close>

text \<open>
  C4. For every payload of 253 bytes with the marker bytes and an ASCII serial number,
  \<^verbatim>\<open>_parse_telemetry\<close> raises nothing and every decoded field is the unsigned little-endian
  integer at its documented offset divided by its documented scale: charge at byte 35,
  temperature at byte 73, solar input at 77 (16 bits, by 10), AC output at 84 (16 bits, by
  10), the reserved field at 103 (32 bits, by 100000), solar energy at 110 (by 10000),
  battery energy at 117 (by 100000), energy out at 124 (by 10000), discharge power at 132
  (by 100), the serial number from the bytes 16 to 31. In particular, bytes 77 and 78 equal
  to 0x64 and 0x00 give a solar input power of 10.
\<close>

theorem parse_telemetry_fields:
  assumes "length data = 253" and "data ! 8 = 0x05" and "data ! 9 = 0x13"
    and "\<forall>i. 16 \<le> i \<and> i < 32 \<longrightarrow> data ! i < 0x80"
  shows "case parse_telemetry s data now of (r, s') \<Rightarrow>
      r = None
    \<and> p_data s' = Some data
    \<and> p_last_data_timestamp s' = Some now
    \<and> p_serial_no s' = Some (map (\<lambda>b. char_of (uint b)) (take 16 (drop 16 data)))
    \<and> p_charge_percentage_battery s' = Some (uint (data ! 35))
    \<and> p_temperature_battery s' = Some (uint (data ! 73))
    \<and> p_power_solar_in s' = Some (of_int (le_uint16 data 77) / 10)
    \<and> p_power_ac_out s' = Some (of_int (le_uint16 data 84) / 10)
    \<and> unknown3 s' = Some (of_int (le_uint32 data 103) / 100000)
    \<and> p_energy_solar_total_in s' = Some (of_int (le_uint32 data 110) / 10000)
    \<and> p_energy_battery_total_in s' = Some (of_int (le_uint32 data 117) / 100000)
    \<and> p_energy_total_out s' = Some (of_int (le_uint32 data 124) / 10000)
    \<and> p_power_battery_discharge s' = Some (of_int (le_uint32 data 132) / 100)
    \<and> (data ! 77 = 0x64 \<and> data ! 78 = 0x00 \<longrightarrow> p_power_solar_in s' = Some 10 \<and> power_solar_in s' = 10)"
proof -
  have a: "is_ascii (py_slice data 0x10 0x20)"
    using assms(1,4) by (rule valid_frame_is_ascii)
  have e: "data ! 77 = 0x64 \<and> data ! 78 = 0x00 \<longrightarrow> le_uint16 data 77 = 100"
    by (simp add: le_uint16_def)
  show ?thesis
    unfolding parse_telemetry_valid [OF assms(1-3) a] using e
    by (simp add: power_solar_in_def py_slice_def)
qed

theorem parse_telemetry_fields_witness:
  "length frame_example = 253 \<and> frame_example ! 8 = 0x05 \<and> frame_example ! 9 = 0x13
   \<and> frame_example ! 77 = 0x64 \<and> frame_example ! 78 = 0x00
   \<and> fst (parse_telemetry (init dev0) frame_example 42) = None
   \<and> p_power_solar_in (snd (parse_telemetry (init dev0) frame_example 42)) = Some 10
   \<and> power_solar_in (snd (parse_telemetry (init dev0) frame_example 42)) = 10"
proof -
  have b: "frame_example ! 77 = 0x64" "frame_example ! 78 = 0x00"
    by (simp_all add: frame_example_def)
  obtain r s' where p: "parse_telemetry (init dev0) frame_example 42 = (r, s')"
    by (cases "parse_telemetry (init dev0) frame_example 42")
  from parse_telemetry_fields [OF frame_example_valid(1-3) frame_example_serial,
      where s = "init dev0" and now = 42] b
  have "r = None \<and> p_power_solar_in s' = Some 10 \<and> power_solar_in s' = 10"
    unfolding p by (simp add: le_uint16_def)
  with b frame_example_valid(1-3) show ?thesis by (simp add: p)
qed

section \<open>The sign of the discharge power\<close>

text \<open>
  C8, as the specification states it: the battery discharge power is the signed 32-bit
  little-endian value at the bytes 132 to 135 divided by 100, so a field with the sign bit
  set decodes to a negative power. On the code this fails: \<^verbatim>\<open>_parse_int32\<close> calls
  \<^verbatim>\<open>int.from_bytes\<close> without \<^verbatim>\<open>signed=True\<close>. The field 0xFFFFFFFF is \<open>-1\<close> when read as
  signed and decodes to 42949672.95.
\<close>

theorem discharge_signed_counterexample:
  "fst (parse_telemetry (init dev0) frame_discharge_ff 42) = None
   \<and> le_sint32 frame_discharge_ff 132 = - 1
   \<and> p_power_battery_discharge (snd (parse_telemetry (init dev0) frame_discharge_ff 42))
       = Some (4294967295 / 100)
   \<and> p_power_battery_discharge (snd (parse_telemetry (init dev0) frame_discharge_ff 42))
       \<noteq> Some (of_int (le_sint32 frame_discharge_ff 132) / 100)"
proof -
  have u: "le_uint32 frame_discharge_ff 132 = 4294967295"
    by (simp add: le_uint32_def frame_discharge_ff_def)
  then have v: "le_sint32 frame_discharge_ff 132 = - 1"
    by (simp add: le_sint32_def)
  show ?thesis
    by (simp add: parse_telemetry_valid [OF frame_discharge_ff_valid] u v)
qed

text \<open>
  C8, amended: for every valid telemetry frame the battery discharge power is the unsigned
  32-bit little-endian value at the bytes 132 to 135 divided by 100; it is never negative.
\<close>

theorem discharge_unsigned:
  assumes "length data = 253" and "data ! 8 = 0x05" and "data ! 9 = 0x13"
    and "\<forall>i. 16 \<le> i \<and> i < 32 \<longrightarrow> data ! i < 0x80"
  shows "p_power_battery_discharge (snd (parse_telemetry s data now))
           = Some (of_int (le_uint32 data 132) / 100)
         \<and> 0 \<le> le_uint32 data 132 \<and> le_uint32 data 132 < 2 ^ 32
         \<and> power_battery_discharge (snd (parse_telemetry s data now)) \<ge> 0"
  using le_uint32_range [of data 132]
  by (simp add: parse_telemetry_valid [OF assms(1-3) valid_frame_is_ascii [OF assms(1,4)]]
      power_battery_discharge_def)

theorem discharge_unsigned_witness:
  "length frame_example = 253 \<and> frame_example ! 8 = 0x05 \<and> frame_example ! 9 = 0x13
   \<and> p_power_battery_discharge (snd (parse_telemetry (init dev0) frame_example 42)) = Some 0"
proof -
  have "le_uint32 frame_example 132 = 0"
    by (simp add: le_uint32_def frame_example_def)
  with discharge_unsigned [OF frame_example_valid(1-3) frame_example_serial, where s = "init dev0" and now = 42]
    frame_example_valid(1-3)
  show ?thesis by simp
qed

section \<open>The unidentified fields\<close>

text \<open>
  C9, as the specification states it: all three unidentified fields are extracted from a
  valid frame, none is dropped. On the code this fails for \<^verbatim>\<open>unknown2\<close>: its assignment
  from byte 91 is commented out. After a valid frame with byte 91 set, \<^verbatim>\<open>unknown2\<close> of a
  fresh session is still unset.
\<close>

theorem unknown2_counterexample:
  "fst (parse_telemetry (init dev0) frame_example 42) = None
   \<and> frame_example ! 91 = 0x2A
   \<and> unknown2 (snd (parse_telemetry (init dev0) frame_example 42)) = None"
  by (simp add: parse_telemetry_valid [OF frame_example_valid])
     (simp add: frame_example_def init_def)

text \<open>
  C9, amended: for every valid telemetry frame, \<^verbatim>\<open>unknown1\<close> is byte 39 as it is and
  \<^verbatim>\<open>unknown3\<close> is the unsigned 32-bit little-endian value at the bytes 103 to 106 divided by
  100000; \<^verbatim>\<open>unknown2\<close> is not extracted: the decoder leaves it as it was.
\<close>

theorem unknown_fields:
  assumes "length data = 253" and "data ! 8 = 0x05" and "data ! 9 = 0x13"
    and "\<forall>i. 16 \<le> i \<and> i < 32 \<longrightarrow> data ! i < 0x80"
  shows "unknown1 (snd (parse_telemetry s data now)) = Some (uint (data ! 39))
       \<and> unknown3 (snd (parse_telemetry s data now)) = Some (of_int (le_uint32 data 103) / 100000)
       \<and> unknown2 (snd (parse_telemetry s data now)) = unknown2 s"
  by (simp add: parse_telemetry_valid [OF assms(1-3) valid_frame_is_ascii [OF assms(1,4)]])

theorem unknown_fields_witness:
  "length frame_example = 253 \<and> frame_example ! 8 = 0x05 \<and> frame_example ! 9 = 0x13
   \<and> unknown1 (snd (parse_telemetry (init dev0) frame_example 42)) = Some 0
   \<and> unknown3 (snd (parse_telemetry (init dev0) frame_example 42)) = Some 0
   \<and> unknown2 (snd (parse_telemetry (init dev0) frame_example 42)) = None"
proof -
  have "le_uint32 frame_example 103 = 0" "frame_example ! 39 = 0"
    by (simp_all add: le_uint32_def frame_example_def)
  with unknown_fields [OF frame_example_valid(1-3) frame_example_serial, where s = "init dev0" and now = 42]
    frame_example_valid(1-3)
  show ?thesis by (simp add: init_def)
qed

section \<open>The derived battery power\<close>

text \<open>
  C10. When both the solar input power and the AC output power are known,
  \<^verbatim>\<open>power_battery\<close> is \<^verbatim>\<open>power_solar_in\<close> minus \<^verbatim>\<open>power_ac_out\<close>; when either is unknown
  it is the sentinel \<open>-1\<close>.
\<close>

theorem power_battery_difference:
  "(p_power_solar_in s \<noteq> None \<and> p_power_ac_out s \<noteq> None
      \<longrightarrow> power_battery s = power_solar_in s - power_ac_out s)
   \<and> (p_power_solar_in s = None \<or> p_power_ac_out s = None \<longrightarrow> power_battery s = - 1)"
  by (auto simp: power_battery_def power_solar_in_def power_ac_out_def DEFAULT_METADATA_INT_def
      split: option.splits)

theorem power_battery_difference_witness:
  "power_battery (init dev0) = - 1
   \<and> power_battery ((init dev0)\<lparr>p_power_ac_out := Some (5 / 2), p_power_solar_in := Some 10\<rparr>) = 15 / 2"
proof -
  let ?s = "(init dev0)\<lparr>p_power_ac_out := Some (5 / 2), p_power_solar_in := Some 10\<rparr>"
  have "p_power_solar_in (init dev0) = None" by (simp add: init_def)
  with power_battery_difference [of "init dev0"] have a: "power_battery (init dev0) = - 1"
    by simp
  have "p_power_solar_in ?s \<noteq> None \<and> p_power_ac_out ?s \<noteq> None" by simp
  with power_battery_difference [of ?s] have "power_battery ?s = power_solar_in ?s - power_ac_out ?s"
    by blast
  then have "power_battery ?s = 15 / 2"
    by (simp add: power_solar_in_def power_ac_out_def)
  with a show ?thesis by simp
qed

section \<open>A disconnect signal of an old client\<close>

text \<open>
  C6. In every state of the session, when the client that the disconnect handler is called
  with is not the client the session holds, \<^verbatim>\<open>_disconnect_callback\<close> changes no attribute
  (the telemetry flag included), creates no reconnect task and invokes no callback.
\<close>

theorem disconnect_callback_stale:
  "Some client \<noteq> p_client s \<Longrightarrow> disconnect_callback s client task = (s, [])"
  by (simp add: disconnect_callback_def)

theorem disconnect_callback_stale_witness:
  "Some 7 \<noteq> p_client session_available
   \<and> disconnect_callback session_available 7 0 = (session_available, [])"
proof -
  have h: "Some 7 \<noteq> p_client session_available" by (simp add: session_available_def)
  from disconnect_callback_stale [OF h, of 0] h show ?thesis by simp
qed

section \<open>Disconnecting\<close>

text \<open>
  C7. The specification says that \<^verbatim>\<open>disconnect()\<close> clears the telemetry flag. The only
  assignment of False to \<^verbatim>\<open>_supports_telemetry\<close> is in \<^verbatim>\<open>_disconnect_callback\<close>, after its
  test that the signal comes from the client the session holds; \<^verbatim>\<open>disconnect()\<close> has set
  \<^verbatim>\<open>_client\<close> to None by then, so the signal of the client it has just closed is dropped
  as one of an old client. On a session that is subscribed to telemetry, \<^verbatim>\<open>disconnect()\<close>
  sets the expected-disconnect flag, calls \<^verbatim>\<open>disconnect\<close> on the client, drops the client
  and invokes no callback, but the telemetry flag stays set, also after the handler has run.
\<close>

theorem disconnect_keeps_capability_flag:
  "p_supports_telemetry session_available
   \<and> disconnect session_available =
       (session_available\<lparr>p_expect_disconnect := True, p_client := None\<rparr>, [ClientDisconnect 1])
   \<and> p_supports_telemetry (fst (disconnect session_available))
   \<and> disconnect_callback (fst (disconnect session_available)) 1 0
       = (fst (disconnect session_available), [])"
proof -
  have a1: "p_supports_telemetry session_available"
    by (simp add: session_available_def)
  have a2: "disconnect session_available =
       (session_available\<lparr>p_expect_disconnect := True, p_client := None\<rparr>, [ClientDisconnect 1])"
    by (simp add: disconnect_def session_available_def Let_def)
  have a3: "disconnect_callback (fst (disconnect session_available)) 1 0
       = (fst (disconnect session_available), [])"
    by (simp add: a2 disconnect_callback_def)
  from a1 a2 a3 show ?thesis by simp
qed

text \<open>
  What follows from it: the next \<^verbatim>\<open>connect()\<close> establishes a new link, finds the session
  available on account of the old flag, and neither probes the services of the new client
  nor subscribes to its notifications.
\<close>

lemma connect_after_disconnect_skips_subscription:
  "connect env_up call_all_return (fst (disconnect session_available)) () 3 True =
     Some (Inr True,
      session_available\<lparr>p_client := Some 2, p_expect_disconnect := False, p_connection_attempts := 0\<rparr>,
      [EstablishConnection 3, Invoke 0], ())"
proof -
  let ?s = "session_available\<lparr>p_expect_disconnect := True, p_client := None\<rparr>"
  let ?t = "session_available\<lparr>p_client := Some 2, p_expect_disconnect := False, p_connection_attempts := 0\<rparr>"
  have d: "fst (disconnect session_available) = ?s"
    by (simp add: disconnect_def session_available_def Let_def)
  have n: "\<not> connected_prop env_up ?s"
    by (simp add: connected_prop_def)
  have e: "establish_connection env_up 3 = Inr 2" by (simp add: env_up_def)
  have c: "\<And>s. p_client s = Some 2 \<Longrightarrow> connected_prop env_up s"
    by (simp add: connected_prop_def env_up_def)
  have a: "\<And>s. p_client s = Some 2 \<Longrightarrow> p_supports_telemetry s \<Longrightarrow> available env_up s"
    by (simp add: available_def supports_telemetry_def c)
  have t: "p_supports_telemetry session_available" by (simp add: session_available_def)
  have k: "p_state_changed_callbacks session_available = [0]" by (simp add: session_available_def)
  have z: "p_connection_attempts session_available = 0" by (simp add: session_available_def init_def)
  have r0: "run_callbacks_from call_all_return 0 [] ?t ()
      = run_callbacks_from call_all_return 1 [Invoke 0] ?t ()"
    by (subst run_callbacks_from.simps) (simp add: k call_all_return_def)
  have r1: "run_callbacks_from call_all_return 1 [Invoke 0] ?t () = Some (None, [Invoke 0], ?t, ())"
    by (subst run_callbacks_from.simps) (simp add: k)
  from r0 r1 have r: "run_state_changed_callbacks call_all_return ?t () = Some (None, [Invoke 0], ?t, ())"
    by (simp add: run_state_changed_callbacks_def)
  have q: "?s\<lparr>p_connection_attempts := p_connection_attempts ?s + 1, p_client := Some 2,
        p_expect_disconnect := False, p_connection_attempts := 0\<rparr> = ?t"
    by simp
  show ?thesis
    unfolding d using r by (simp add: connect_def n e c a t Let_def)
qed

section \<open>Notifying the callbacks\<close>

text \<open>
  C2, as the specification states it: one notification invokes every registered callback
  once, in the order of registration, and a callback that raises does not keep the later
  ones from running. On the code this fails in two ways. The loop of
  \<^verbatim>\<open>_run_state_changed_callbacks\<close> has no handler around the call: with the callbacks 0 and
  1 registered and callback 0 raising, callback 1 is not invoked and the exception leaves
  the method. And the loop runs over the list of the session itself: when callback 0
  unregisters itself, the list shrinks under the loop, which ends without having invoked
  callback 1, although nothing has raised.
\<close>

theorem run_callbacks_isolation_counterexample:
  "p_state_changed_callbacks session_two = [0, 1]
   \<and> run_state_changed_callbacks call_first_raises session_two ()
       = Some (Some CallbackError, [Invoke 0], session_two, ())
   \<and> run_state_changed_callbacks call_first_unregisters session_two ()
       = Some (None, [Invoke 0], session_two\<lparr>p_state_changed_callbacks := [1]\<rparr>, ())"
proof -
  have c: "p_state_changed_callbacks session_two = [0, 1]"
    by (simp add: session_two_def add_callback_def init_def)
  have a: "run_callbacks_from call_first_raises 0 [] session_two ()
      = Some (Some CallbackError, [Invoke 0], session_two, ())"
    by (subst run_callbacks_from.simps) (simp add: c call_first_raises_def)
  have u: "call_first_unregisters 0 session_two ()
      = (None, session_two\<lparr>p_state_changed_callbacks := [1]\<rparr>, ())"
    by (simp add: call_first_unregisters_def remove_callback_def c)
  have b1: "run_callbacks_from call_first_unregisters 0 [] session_two ()
      = run_callbacks_from call_first_unregisters 1 [Invoke 0]
          (session_two\<lparr>p_state_changed_callbacks := [1]\<rparr>) ()"
    by (subst run_callbacks_from.simps) (simp add: c u)
  have b2: "run_callbacks_from call_first_unregisters 1 [Invoke 0]
          (session_two\<lparr>p_state_changed_callbacks := [1]\<rparr>) ()
      = Some (None, [Invoke 0], session_two\<lparr>p_state_changed_callbacks := [1]\<rparr>, ())"
    by (subst run_callbacks_from.simps) simp
  from c a b1 b2 show ?thesis by (simp add: run_state_changed_callbacks_def)
qed

text \<open>
  C2, amended: when no callback changes the list of registered callbacks while it runs, one
  notification comes to an end and invokes the registered callbacks in the order of
  registration, synchronously. When none of them raises, each is invoked exactly once and
  the notification returns. When one raises, the callbacks registered before it have been
  invoked once each, the callbacks registered after it are not invoked, and its exception
  leaves the method.
\<close>

theorem run_state_changed_callbacks_order:
  assumes "\<forall>f s w. p_state_changed_callbacks (fst (snd (call f s w))) = p_state_changed_callbacks s"
  shows "run_state_changed_callbacks call s w
           = Some (run_fixed call (p_state_changed_callbacks s) s w)
       \<and> (\<exists>r evs s' w'. run_state_changed_callbacks call s w = Some (r, evs, s', w')
            \<and> ((r = None \<and> evs = map Invoke (p_state_changed_callbacks s))
               \<or> (\<exists>pre f post e. p_state_changed_callbacks s = pre @ f # post
                     \<and> evs = map Invoke (pre @ [f]) \<and> r = Some e)))
       \<and> ((\<forall>f \<in> set (p_state_changed_callbacks s). \<forall>s w. fst (call f s w) = None) \<longrightarrow>
            (\<exists>s' w'. run_state_changed_callbacks call s w
                       = Some (None, map Invoke (p_state_changed_callbacks s), s', w')))
       \<and> (\<forall>pre f post e.
             p_state_changed_callbacks s = pre @ f # post
             \<and> (\<forall>g \<in> set pre. \<forall>s w. fst (call g s w) = None)
             \<and> (\<forall>s w. fst (call f s w) = Some e) \<longrightarrow>
            (\<exists>s' w'. run_state_changed_callbacks call s w
                       = Some (Some e, map Invoke (pre @ [f]), s', w')))"
proof -
  from assms have H: "\<And>f s w. p_state_changed_callbacks (fst (snd (call f s w))) = p_state_changed_callbacks s"
    by simp
  note eq = run_state_changed_callbacks_fixed [of call, OF H]
  obtain r evs s' w' where p: "run_fixed call (p_state_changed_callbacks s) s w = (r, evs, s', w')"
    by (cases "run_fixed call (p_state_changed_callbacks s) s w")
  have one: "\<exists>r evs s' w'. run_state_changed_callbacks call s w = Some (r, evs, s', w')
            \<and> ((r = None \<and> evs = map Invoke (p_state_changed_callbacks s))
               \<or> (\<exists>pre f post e. p_state_changed_callbacks s = pre @ f # post
                     \<and> evs = map Invoke (pre @ [f]) \<and> r = Some e))"
    using run_fixed_shape [OF p] by (simp add: eq p)
  have two: "(\<forall>f \<in> set (p_state_changed_callbacks s). \<forall>s w. fst (call f s w) = None) \<longrightarrow>
            (\<exists>s' w'. run_state_changed_callbacks call s w
                       = Some (None, map Invoke (p_state_changed_callbacks s), s', w'))"
    using run_fixed_all_return [of "p_state_changed_callbacks s" call s w] by (simp add: eq)
  have three: "\<forall>pre f post e.
             p_state_changed_callbacks s = pre @ f # post
             \<and> (\<forall>g \<in> set pre. \<forall>s w. fst (call g s w) = None)
             \<and> (\<forall>s w. fst (call f s w) = Some e) \<longrightarrow>
            (\<exists>s' w'. run_state_changed_callbacks call s w
                       = Some (Some e, map Invoke (pre @ [f]), s', w'))"
  proof (intro allI impI)
    fix pre f post e
    assume a: "p_state_changed_callbacks s = pre @ f # post
             \<and> (\<forall>g \<in> set pre. \<forall>s w. fst (call g s w) = None)
             \<and> (\<forall>s w. fst (call f s w) = Some e)"
    then have "\<exists>s' w'. run_fixed call (pre @ f # post) s w = (Some e, map Invoke (pre @ [f]), s', w')"
      by (intro run_fixed_raise) simp_all
    with a show "\<exists>s' w'. run_state_changed_callbacks call s w
                       = Some (Some e, map Invoke (pre @ [f]), s', w')"
      by (simp add: eq)
  qed
  from eq one two three show ?thesis by blast
qed

theorem run_state_changed_callbacks_order_witness:
  "(\<forall>f s w. p_state_changed_callbacks (fst (snd (call_first_raises f s w))) = p_state_changed_callbacks s)
   \<and> p_state_changed_callbacks session_three = [1] @ 0 # [2]
   \<and> (\<forall>s w. fst (call_first_raises 1 s w) = None)
   \<and> (\<forall>s w. fst (call_first_raises 0 s w) = Some CallbackError)
   \<and> (\<exists>s' w'. run_state_changed_callbacks call_first_raises session_three ()
                 = Some (Some CallbackError, [Invoke 1, Invoke 0], s', w'))
   \<and> (\<forall>f s w. p_state_changed_callbacks (fst (snd (call_all_return f s w))) = p_state_changed_callbacks s)
   \<and> (\<forall>f s w. fst (call_all_return f s w) = None)
   \<and> (\<exists>s' w'. run_state_changed_callbacks call_all_return session_three ()
                 = Some (None, [Invoke 1, Invoke 0, Invoke 2], s', w'))"
proof -
  have c: "p_state_changed_callbacks session_three = [1] @ 0 # [2]"
    by (simp add: session_three_def add_callback_def init_def)
  have h1: "\<forall>f s w. p_state_changed_callbacks (fst (snd (call_first_raises f s w))) = p_state_changed_callbacks s"
    by (simp add: call_first_raises_def)
  have h2: "\<forall>g \<in> set [1]. \<forall>s w. fst (call_first_raises g s w) = None"
    by (simp add: call_first_raises_def)
  have h3: "\<forall>s w. fst (call_first_raises 0 s w) = Some CallbackError"
    by (simp add: call_first_raises_def)
  have k1: "\<forall>f s w. p_state_changed_callbacks (fst (snd (call_all_return f s w))) = p_state_changed_callbacks s"
    by (simp add: call_all_return_def)
  have k2: "\<forall>f \<in> set (p_state_changed_callbacks session_three). \<forall>s w. fst (call_all_return f s w) = None"
    by (simp add: call_all_return_def)
  from run_state_changed_callbacks_order [OF h1, of session_three "()"] c h2 h3
  have r1: "\<exists>s' w'. run_state_changed_callbacks call_first_raises session_three ()
                 = Some (Some CallbackError, map Invoke ([1] @ [0]), s', w')"
    by blast
  from run_state_changed_callbacks_order [OF k1, of session_three "()"] k2
  have r2: "\<exists>s' w'. run_state_changed_callbacks call_all_return session_three ()
                 = Some (None, map Invoke (p_state_changed_callbacks session_three), s', w')"
    by blast
  have h2': "\<forall>s w. fst (call_first_raises 1 s w) = None"
    by (simp add: call_first_raises_def)
  have k2': "\<forall>f s w. fst (call_all_return f s w) = None"
    by (simp add: call_all_return_def)
  from c h1 h2' h3 k1 k2' r1 r2 show ?thesis by simp
qed

section \<open>Connecting twice\<close>

text \<open>
  C5, as the specification states it: on a session that is connected and subscribed to
  telemetry, \<^verbatim>\<open>connect()\<close> makes no attempt to establish a link, does not probe, and
  returns True. The last part fails when \<^verbatim>\<open>run_callbacks\<close> is set and a registered callback
  raises: \<^verbatim>\<open>connect()\<close> runs the callbacks before it returns, without a handler, and the
  exception leaves \<^verbatim>\<open>connect()\<close> in place of the value True.
\<close>

theorem connect_available_counterexample:
  "connected_prop env_up session_available \<and> available env_up session_available
   \<and> connect env_up call_first_raises session_available () 3 True =
       Some (Inl CallbackError,
             session_available\<lparr>p_expect_disconnect := False, p_connection_attempts := 0\<rparr>,
             [Invoke 0], ())"
proof -
  have a: "connected_prop env_up session_available" "supports_telemetry session_available"
    by (simp_all add: connected_prop_def supports_telemetry_def session_available_def env_up_def)
  have r: "run_state_changed_callbacks call_first_raises
        (session_available\<lparr>p_expect_disconnect := False, p_connection_attempts := 0\<rparr>) () =
      Some (Some CallbackError, [Invoke 0],
            session_available\<lparr>p_expect_disconnect := False, p_connection_attempts := 0\<rparr>, ())"
    unfolding run_state_changed_callbacks_def
    by (subst run_callbacks_from.simps) (simp add: session_available_def call_first_raises_def)
  from a show ?thesis
    by (simp add: connect_short_circuit [OF a] r available_def)
qed

text \<open>
  C5, amended: on a session that is connected and has the telemetry flag set,
  \<^verbatim>\<open>connect()\<close> makes no attempt to establish a link, does not probe the services and does
  not subscribe; it resets the expected-disconnect flag and the attempt counter. Without
  \<^verbatim>\<open>run_callbacks\<close> it then returns True and calls nothing. With \<^verbatim>\<open>run_callbacks\<close> it runs
  the callbacks once on the session so reset, and returns True when the notification
  returns; an exception of a callback leaves \<^verbatim>\<open>connect()\<close>. When the callbacks leave the
  session as it is, \<^verbatim>\<open>connect()\<close> comes to an end and the session after the call is the
  session before it with the two attributes reset: the client is kept.
\<close>

theorem connect_already_available:
  assumes "connected_prop env s" and "supports_telemetry s"
  shows "(\<not> run_cbs \<longrightarrow>
            connect env call s w max_attempts run_cbs =
              Some (Inr True, s\<lparr>p_expect_disconnect := False, p_connection_attempts := 0\<rparr>, [], w))
       \<and> (run_cbs \<longrightarrow>
            connect env call s w max_attempts run_cbs =
              (case run_state_changed_callbacks call
                      (s\<lparr>p_expect_disconnect := False, p_connection_attempts := 0\<rparr>) w of
                 None \<Rightarrow> None
               | Some (x, evs, s', w') \<Rightarrow>
                   Some (case x of None \<Rightarrow> Inr True | Some e \<Rightarrow> Inl e, s', evs, w')))
       \<and> (\<forall>r s' evs w'. connect env call s w max_attempts run_cbs = Some (r, s', evs, w') \<longrightarrow>
              (\<forall>m. EstablishConnection m \<notin> set evs)
            \<and> (\<forall>c. GetServices c \<notin> set evs \<and> StartNotify c \<notin> set evs))
       \<and> ((\<forall>f s w. fst (snd (call f s w)) = s) \<longrightarrow>
            (\<exists>r evs w'. connect env call s w max_attempts run_cbs =
                Some (r, s\<lparr>p_expect_disconnect := False, p_connection_attempts := 0\<rparr>, evs, w')
              \<and> (r = Inr True \<or> run_cbs \<and> (\<exists>e. r = Inl e))))"
proof -
  let ?s3 = "s\<lparr>p_expect_disconnect := False, p_connection_attempts := 0\<rparr>"
  note sc = connect_short_circuit [OF assms, of call w max_attempts run_cbs]
  have one: "\<not> run_cbs \<longrightarrow> connect env call s w max_attempts run_cbs = Some (Inr True, ?s3, [], w)"
    using sc by (cases run_cbs) simp_all
  have two: "run_cbs \<longrightarrow>
            connect env call s w max_attempts run_cbs =
              (case run_state_changed_callbacks call ?s3 w of
                 None \<Rightarrow> None
               | Some (x, evs, s', w') \<Rightarrow>
                   Some (case x of None \<Rightarrow> Inr True | Some e \<Rightarrow> Inl e, s', evs, w'))"
    using sc by (cases run_cbs) simp_all
  have three: "\<forall>r s' evs w'. connect env call s w max_attempts run_cbs = Some (r, s', evs, w') \<longrightarrow>
              (\<forall>m. EstablishConnection m \<notin> set evs)
            \<and> (\<forall>c. GetServices c \<notin> set evs \<and> StartNotify c \<notin> set evs)"
  proof (intro allI impI)
    fix r s' evs w'
    assume c: "connect env call s w max_attempts run_cbs = Some (r, s', evs, w')"
    have "\<forall>e \<in> set evs. \<exists>f. e = Invoke f"
    proof (cases run_cbs)
      case False
      with c sc show ?thesis by simp
    next
      case True
      with c sc obtain x where "run_state_changed_callbacks call ?s3 w = Some (x, evs, s', w')"
        by (auto split: option.splits prod.splits)
      then show ?thesis by (rule run_state_changed_callbacks_events)
    qed
    then show "(\<forall>m. EstablishConnection m \<notin> set evs)
            \<and> (\<forall>c. GetServices c \<notin> set evs \<and> StartNotify c \<notin> set evs)"
      by auto
  qed
  have four: "(\<forall>f s w. fst (snd (call f s w)) = s) \<longrightarrow>
            (\<exists>r evs w'. connect env call s w max_attempts run_cbs = Some (r, ?s3, evs, w')
              \<and> (r = Inr True \<or> run_cbs \<and> (\<exists>e. r = Inl e)))"
  proof
    assume u: "\<forall>f s w. fst (snd (call f s w)) = s"
    then have H: "\<And>f s w. p_state_changed_callbacks (fst (snd (call f s w))) = p_state_changed_callbacks s"
      by simp
    obtain x evs s' w' where p:
      "run_fixed call (p_state_changed_callbacks ?s3) ?s3 w = (x, evs, s', w')"
      by (cases "run_fixed call (p_state_changed_callbacks ?s3) ?s3 w")
    from u have "fst (snd (snd (run_fixed call (p_state_changed_callbacks ?s3) ?s3 w))) = ?s3"
      by (intro run_untouched) simp
    with p have s': "s' = ?s3" by simp
    have "run_state_changed_callbacks call ?s3 w = Some (x, evs, ?s3, w')"
      using run_state_changed_callbacks_fixed [of call ?s3 w, OF H] p s' by simp
    then show "\<exists>r evs w'. connect env call s w max_attempts run_cbs = Some (r, ?s3, evs, w')
              \<and> (r = Inr True \<or> run_cbs \<and> (\<exists>e. r = Inl e))"
      using sc by (cases run_cbs; cases x) auto
  qed
  from one two three four show ?thesis by blast
qed

theorem connect_already_available_witness:
  "connected_prop env_up session_available \<and> supports_telemetry session_available
   \<and> (\<forall>f s w. fst (snd (call_all_return f s w)) = s)
   \<and> connect env_up call_all_return session_available () 3 False =
       Some (Inr True,
             session_available\<lparr>p_expect_disconnect := False, p_connection_attempts := 0\<rparr>, [], ())
   \<and> connect env_up call_all_return session_available () 3 True =
       Some (Inr True,
             session_available\<lparr>p_expect_disconnect := False, p_connection_attempts := 0\<rparr>,
             [Invoke 0], ())"
proof -
  let ?s3 = "session_available\<lparr>p_expect_disconnect := False, p_connection_attempts := 0\<rparr>"
  have a: "connected_prop env_up session_available" "supports_telemetry session_available"
    by (simp_all add: connected_prop_def supports_telemetry_def session_available_def env_up_def)
  have u: "\<forall>f s w. fst (snd (call_all_return f s w)) = s"
    by (simp add: call_all_return_def)
  have r0: "run_callbacks_from call_all_return 0 [] ?s3 ()
      = run_callbacks_from call_all_return 1 [Invoke 0] ?s3 ()"
    by (subst run_callbacks_from.simps) (simp add: session_available_def call_all_return_def)
  have r1: "run_callbacks_from call_all_return 1 [Invoke 0] ?s3 () = Some (None, [Invoke 0], ?s3, ())"
    by (subst run_callbacks_from.simps) (simp add: session_available_def)
  from r0 r1 have r: "run_state_changed_callbacks call_all_return ?s3 () = Some (None, [Invoke 0], ?s3, ())"
    by (simp add: run_state_changed_callbacks_def)
  note t = connect_already_available [OF a, where call = call_all_return and w = "()"
      and max_attempts = 3]
  from t [where run_cbs = False]
  have f: "connect env_up call_all_return session_available () 3 False = Some (Inr True, ?s3, [], ())"
    by simp
  from t [where run_cbs = True]
  have g: "connect env_up call_all_return session_available () 3 True = Some (Inr True, ?s3, [Invoke 0], ())"
    by (simp add: r)
  from a u f g show ?thesis by simp
qed

end
